theory Spec2Isabelle
  imports Main "HOL-Library.Word" "HOL-Library.AList"
begin

unbundle bit_operations_syntax

section \<open>C data: integers, pointers, assertion failures\<close>

text \<open>
  A C \<^verbatim>\<open>int\<close> is a 32-bit two's complement value: arithmetic wraps, comparisons read
  the value with \<^const>\<open>sint\<close>. \<^verbatim>\<open>INT_MAX\<close> is the constant of \<^verbatim>\<open>limits.h\<close> for
  that width.
\<close>

type_synonym c_int = "32 word"

definition INT_MAX :: c_int where
  "INT_MAX = 2147483647"

text \<open>
  A pointer is either \<^verbatim>\<open>NULL\<close> or points to an object, whose contents it carries. A
  function that writes through a pointer returns the new contents of the object.
\<close>

datatype 'a ptr = NULL | Ptr 'a

text \<open>
  The code is modelled with its assertions compiled in: a failing \<^verbatim>\<open>assert\<close> aborts the
  program, and the call returns the text of the failed condition on the left.
\<close>

datatype error = Assert string

type_synonym BtorMemMgr = nat  \<comment> \<open>the memory manager is opaque to \<^verbatim>\<open>btorsat.c\<close>\<close>
type_synonym FILE = nat  \<comment> \<open>a stream of \<^verbatim>\<open>stdio.h\<close>, identified by a handle\<close>

section \<open>The SAT manager of \<^verbatim>\<open>btorsat.c\<close>\<close>

record BtorSATMgr =
  smgr_id :: c_int
  smgr_verbosity :: c_int
  smgr_mm :: "BtorMemMgr ptr"

text \<open>
  \<^verbatim>\<open>btor_new_sat_mgr\<close>. \<^verbatim>\<open>BTOR_NEW\<close> allocates the structure; the accounting it does
  in the memory manager is outside \<^verbatim>\<open>btorsat.c\<close> and not modelled.
\<close>

definition btor_new_sat_mgr :: "BtorMemMgr ptr \<Rightarrow> c_int \<Rightarrow> error + BtorSATMgr" where
  "btor_new_sat_mgr mm verbosity =
     (if mm = NULL then Inl (Assert ''mm != NULL'')
      else if \<not> (-1 \<le>s verbosity) then Inl (Assert ''verbosity >= -1'')
      else Inr \<lparr>smgr_id = 1, smgr_verbosity = verbosity, smgr_mm = mm\<rparr>)"

text \<open>\<^verbatim>\<open>btor_next_cnf_id_sat_mgr\<close>: \<^verbatim>\<open>return smgr->id++\<close> behind its two assertions.\<close>

definition btor_next_cnf_id_sat_mgr :: "BtorSATMgr ptr \<Rightarrow> error + (c_int \<times> BtorSATMgr)" where
  "btor_next_cnf_id_sat_mgr p =
     (case p of
        NULL \<Rightarrow> Inl (Assert ''smgr != NULL'')
      | Ptr smgr \<Rightarrow>
          if \<not> (smgr_id smgr <s INT_MAX) then Inl (Assert ''smgr->id < INT_MAX'')
          else Inr (smgr_id smgr, smgr\<lparr>smgr_id := smgr_id smgr + 1\<rparr>))"

text \<open>\<^verbatim>\<open>btor_get_last_cnf_id_sat_mgr\<close>: \<^verbatim>\<open>return smgr->id - 1\<close>.\<close>

definition btor_get_last_cnf_id_sat_mgr :: "BtorSATMgr ptr \<Rightarrow> error + (c_int \<times> BtorSATMgr)" where
  "btor_get_last_cnf_id_sat_mgr p =
     (case p of
        NULL \<Rightarrow> Inl (Assert ''smgr != NULL'')
      | Ptr smgr \<Rightarrow>
          if \<not> (1 <s smgr_id smgr) then Inl (Assert ''smgr->id > 1'')
          else Inr (smgr_id smgr - 1, smgr))"

text \<open>
  A caller that asks for \<open>n\<close> identifiers in a row: the identifiers in the order they were
  issued, and the manager afterwards. The first failing call aborts the run.
\<close>

fun issue_ids :: "nat \<Rightarrow> BtorSATMgr \<Rightarrow> error + (c_int list \<times> BtorSATMgr)" where
  "issue_ids 0 smgr = Inr ([], smgr)"
| "issue_ids (Suc n) smgr =
     (case btor_next_cnf_id_sat_mgr (Ptr smgr) of
        Inl e \<Rightarrow> Inl e
      | Inr (i, smgr') \<Rightarrow>
          (case issue_ids n smgr' of
             Inl e \<Rightarrow> Inl e
           | Inr (is, smgr'') \<Rightarrow> Inr (i # is, smgr'')))"

subsection \<open>The calls into PicoSAT\<close>

text \<open>
  PicoSAT is a library outside this repository with one global solver. Its state is a
  parameter \<open>'p\<close>, and the functions of \<^verbatim>\<open>picosat.h\<close> that \<^verbatim>\<open>btorsat.c\<close> calls are the
  fields of a record of state transformers. None of them is given the manager, so none
  of them can write to it.
\<close>

record 'p PicoSAT =
  picosat_init :: "'p \<Rightarrow> 'p"
  picosat_set_output :: "FILE \<Rightarrow> 'p \<Rightarrow> 'p"
  picosat_set_prefix :: "string \<Rightarrow> 'p \<Rightarrow> 'p"
  picosat_enable_verbosity :: "'p \<Rightarrow> 'p"
  picosat_stats :: "'p \<Rightarrow> 'p"
  picosat_add :: "c_int \<Rightarrow> 'p \<Rightarrow> 'p"
  picosat_print :: "FILE \<Rightarrow> 'p \<Rightarrow> 'p"
  picosat_assume :: "c_int \<Rightarrow> 'p \<Rightarrow> 'p"
  picosat_sat :: "c_int \<Rightarrow> 'p \<Rightarrow> c_int \<times> 'p"
  picosat_deref :: "c_int \<Rightarrow> 'p \<Rightarrow> c_int \<times> 'p"
  picosat_reset :: "'p \<Rightarrow> 'p"
  picosat_changed :: "'p \<Rightarrow> c_int \<times> 'p"

text \<open>What a call can change besides the manager: the solver and the text on \<^verbatim>\<open>stderr\<close>.\<close>

record 'p world =
  solver :: 'p
  stderr :: "string list"

definition print_verbose_msg :: "string ptr \<Rightarrow> 'p world \<Rightarrow> error + 'p world" where
  "print_verbose_msg msg w =
     (case msg of
        NULL \<Rightarrow> Inl (Assert ''msg != NULL'')
      | Ptr m \<Rightarrow> Inr (w\<lparr>stderr := stderr w @ [''[btorsat] '' @ m]\<rparr>))"

text \<open>\<^verbatim>\<open>btor_delete_sat_mgr\<close> frees the structure: no manager is left after it.\<close>

definition btor_delete_sat_mgr :: "BtorSATMgr ptr \<Rightarrow> error + unit" where
  "btor_delete_sat_mgr p =
     (case p of NULL \<Rightarrow> Inl (Assert ''smgr != NULL'') | Ptr smgr \<Rightarrow> Inr ())"

text \<open>
  Every other function returns its result, the manager the pointer points to after the
  call, and the world after the call.
\<close>

definition btor_init_sat ::
  "'p PicoSAT \<Rightarrow> BtorSATMgr ptr \<Rightarrow> 'p world \<Rightarrow> error + (unit \<times> BtorSATMgr \<times> 'p world)" where
  "btor_init_sat P p w =
     (case p of
        NULL \<Rightarrow> Inl (Assert ''smgr != NULL'')
      | Ptr smgr \<Rightarrow>
          (case (if 3 \<le>s smgr_verbosity smgr
                 then print_verbose_msg (Ptr ''initializing PicoSAT\<newline>'') w else Inr w) of
             Inl e \<Rightarrow> Inl e
           | Inr w' \<Rightarrow> Inr ((), smgr, w'\<lparr>solver := picosat_init P (solver w')\<rparr>)))"

definition btor_set_output_sat ::
  "'p PicoSAT \<Rightarrow> BtorSATMgr ptr \<Rightarrow> FILE ptr \<Rightarrow> 'p world \<Rightarrow>
     error + (unit \<times> BtorSATMgr \<times> 'p world)" where
  "btor_set_output_sat P p output w =
     (case p of
        NULL \<Rightarrow> Inl (Assert ''smgr != NULL'')
      | Ptr smgr \<Rightarrow>
          (case output of
             NULL \<Rightarrow> Inl (Assert ''output != NULL'')
           | Ptr f \<Rightarrow>
               Inr ((), smgr,
                 w\<lparr>solver :=
                     picosat_set_prefix P ''[picosat] '' (picosat_set_output P f (solver w))\<rparr>)))"

definition btor_enable_verbosity_sat ::
  "'p PicoSAT \<Rightarrow> BtorSATMgr ptr \<Rightarrow> 'p world \<Rightarrow> error + (unit \<times> BtorSATMgr \<times> 'p world)" where
  "btor_enable_verbosity_sat P p w =
     (case p of
        NULL \<Rightarrow> Inl (Assert ''smgr != NULL'')
      | Ptr smgr \<Rightarrow> Inr ((), smgr, w\<lparr>solver := picosat_enable_verbosity P (solver w)\<rparr>))"

definition btor_print_stats_sat ::
  "'p PicoSAT \<Rightarrow> BtorSATMgr ptr \<Rightarrow> 'p world \<Rightarrow> error + (unit \<times> BtorSATMgr \<times> 'p world)" where
  "btor_print_stats_sat P p w =
     (case p of
        NULL \<Rightarrow> Inl (Assert ''smgr != NULL'')
      | Ptr smgr \<Rightarrow> Inr ((), smgr, w\<lparr>solver := picosat_stats P (solver w)\<rparr>))"

definition btor_add_sat ::
  "'p PicoSAT \<Rightarrow> BtorSATMgr ptr \<Rightarrow> c_int \<Rightarrow> 'p world \<Rightarrow>
     error + (unit \<times> BtorSATMgr \<times> 'p world)" where
  "btor_add_sat P p lit w =
     (case p of
        NULL \<Rightarrow> Inl (Assert ''smgr != NULL'')
      | Ptr smgr \<Rightarrow> Inr ((), smgr, w\<lparr>solver := picosat_add P lit (solver w)\<rparr>))"

definition btor_dump_cnf_sat ::
  "'p PicoSAT \<Rightarrow> BtorSATMgr ptr \<Rightarrow> FILE ptr \<Rightarrow> 'p world \<Rightarrow>
     error + (unit \<times> BtorSATMgr \<times> 'p world)" where
  "btor_dump_cnf_sat P p output w =
     (case p of
        NULL \<Rightarrow> Inl (Assert ''smgr != NULL'')
      | Ptr smgr \<Rightarrow>
          (case output of
             NULL \<Rightarrow> Inl (Assert ''output != NULL'')
           | Ptr f \<Rightarrow> Inr ((), smgr, w\<lparr>solver := picosat_print P f (solver w)\<rparr>)))"

definition btor_assume_sat ::
  "'p PicoSAT \<Rightarrow> BtorSATMgr ptr \<Rightarrow> c_int \<Rightarrow> 'p world \<Rightarrow>
     error + (unit \<times> BtorSATMgr \<times> 'p world)" where
  "btor_assume_sat P p lit w =
     (case p of
        NULL \<Rightarrow> Inl (Assert ''smgr != NULL'')
      | Ptr smgr \<Rightarrow> Inr ((), smgr, w\<lparr>solver := picosat_assume P lit (solver w)\<rparr>))"

definition btor_sat_sat ::
  "'p PicoSAT \<Rightarrow> BtorSATMgr ptr \<Rightarrow> c_int \<Rightarrow> 'p world \<Rightarrow>
     error + (c_int \<times> BtorSATMgr \<times> 'p world)" where
  "btor_sat_sat P p limit w =
     (case p of
        NULL \<Rightarrow> Inl (Assert ''smgr != NULL'')
      | Ptr smgr \<Rightarrow>
          (case (if 0 <s smgr_verbosity smgr
                 then print_verbose_msg (Ptr ''calling PicoSAT\<newline>'') w else Inr w) of
             Inl e \<Rightarrow> Inl e
           | Inr w' \<Rightarrow>
               (case picosat_sat P limit (solver w') of
                  (res, s') \<Rightarrow> Inr (res, smgr, w'\<lparr>solver := s'\<rparr>))))"

definition btor_deref_sat ::
  "'p PicoSAT \<Rightarrow> BtorSATMgr ptr \<Rightarrow> c_int \<Rightarrow> 'p world \<Rightarrow>
     error + (c_int \<times> BtorSATMgr \<times> 'p world)" where
  "btor_deref_sat P p lit w =
     (case p of
        NULL \<Rightarrow> Inl (Assert ''smgr != NULL'')
      | Ptr smgr \<Rightarrow>
          (case picosat_deref P lit (solver w) of
             (res, s') \<Rightarrow> Inr (res, smgr, w\<lparr>solver := s'\<rparr>)))"

definition btor_reset_sat ::
  "'p PicoSAT \<Rightarrow> BtorSATMgr ptr \<Rightarrow> 'p world \<Rightarrow> error + (unit \<times> BtorSATMgr \<times> 'p world)" where
  "btor_reset_sat P p w =
     (case p of
        NULL \<Rightarrow> Inl (Assert ''smgr != NULL'')
      | Ptr smgr \<Rightarrow>
          (case (if 3 \<le>s smgr_verbosity smgr
                 then print_verbose_msg (Ptr ''resetting PicoSAT\<newline>'') w else Inr w) of
             Inl e \<Rightarrow> Inl e
           | Inr w' \<Rightarrow> Inr ((), smgr, w'\<lparr>solver := picosat_reset P (solver w')\<rparr>)))"

definition btor_changed_assignments_sat ::
  "'p PicoSAT \<Rightarrow> BtorSATMgr ptr \<Rightarrow> 'p world \<Rightarrow> error + (c_int \<times> BtorSATMgr \<times> 'p world)" where
  "btor_changed_assignments_sat P p w =
     (case p of
        NULL \<Rightarrow> Inl (Assert ''smgr != NULL'')
      | Ptr smgr \<Rightarrow>
          (case picosat_changed P (solver w) of
             (res, s') \<Rightarrow> Inr (res, smgr, w\<lparr>solver := s'\<rparr>)))"

text \<open>The manager a call leaves behind, when the call returns.\<close>

definition smgr_after :: "error + ('r \<times> BtorSATMgr \<times> 'w) \<Rightarrow> BtorSATMgr option" where
  "smgr_after r = (case r of Inl e \<Rightarrow> None | Inr (res, smgr, w) \<Rightarrow> Some smgr)"

section \<open>Status codes of \<^verbatim>\<open>boolector.h\<close>\<close>

definition BOOLECTOR_UNKNOWN :: c_int where "BOOLECTOR_UNKNOWN = 0"
definition BOOLECTOR_SAT :: c_int where "BOOLECTOR_SAT = 10"
definition BOOLECTOR_UNSAT :: c_int where "BOOLECTOR_UNSAT = 20"
definition BOOLECTOR_PARSE_ERROR :: c_int where "BOOLECTOR_PARSE_ERROR = 1"

section \<open>Unsigned division and remainder of \<^verbatim>\<open>boolector.h\<close>\<close>

text \<open>
  Modelled from the spec: \<^verbatim>\<open>boolector_udiv\<close> is only declared in \<^verbatim>\<open>boolector.h\<close>; its body
  (and the division circuit behind it) is missing. The model is the value of the
  bit vector the returned node stands for, from the declaration's comment and the design
  note of the spec: both operands have the same width (one type \<open>'a word\<close>), and if
  \<open>n1\<close> is zero the result is \<open>-1\<close>.
\<close>

definition boolector_udiv :: "'a::len word \<Rightarrow> 'a word \<Rightarrow> 'a word" where
  "boolector_udiv n0 n1 = (if n1 = 0 then - 1 else n0 div n1)"

text \<open>
  Modelled from the spec: \<^verbatim>\<open>boolector_urem\<close> is only declared in \<^verbatim>\<open>boolector.h\<close>; its body
  is missing. From the declaration's comment: if \<open>n1\<close> is zero the result is \<open>n0\<close>.
\<close>

definition boolector_urem :: "'a::len word \<Rightarrow> 'a word \<Rightarrow> 'a word" where
  "boolector_urem n0 n1 = (if n1 = 0 then n0 else n0 mod n1)"

section \<open>Nodes, the node map and substitution of \<^verbatim>\<open>btormap.h\<close>\<close>

text \<open>
  Modelled from the spec: \<^verbatim>\<open>btormap.h\<close> declares the node map and the two substitution
  functions, and \<^verbatim>\<open>btormap.c\<close> and the node store (\<^verbatim>\<open>btorexp.c\<close>) that implement them are
  missing. A reference is an opaque node identifier with a small tag field beside it
  (design notes of the spec). The tag has the values 0 to 3 of the header's comment; its
  lowest bit is the polarity. The identifier 0 is the zero sentinel.
\<close>

type_synonym node_id = nat
type_synonym tag = "2 word"

record BtorNodeRef =
  ref_id :: node_id
  ref_tag :: tag

text \<open>
  Modelled from the spec: the tag operations of the missing node store. A reference is
  tag-normalized by clearing its tag. The reference \<open>r\<close> tagged with \<open>t\<close> on top of the tag
  it has is \<open>tagged t r\<close>: tagging an untagged reference gives it the tag \<open>t\<close>, and inverting
  twice gives the reference back.
\<close>

definition tag_normalized :: "BtorNodeRef \<Rightarrow> BtorNodeRef" where
  "tag_normalized r = r\<lparr>ref_tag := 0\<rparr>"

definition tagged :: "tag \<Rightarrow> BtorNodeRef \<Rightarrow> BtorNodeRef" where
  "tagged t r = r\<lparr>ref_tag := ref_tag r XOR t\<rparr>"

definition is_inverted :: "BtorNodeRef \<Rightarrow> bool" where
  "is_inverted r = bit (ref_tag r) 0"

definition invert :: "BtorNodeRef \<Rightarrow> BtorNodeRef" where
  "invert r = tagged 1 r"

definition zero_ref :: BtorNodeRef where
  "zero_ref = \<lparr>ref_id = 0, ref_tag = 0\<rparr>"

text \<open>
  Modelled from the spec: the node store (section 4.1) is missing. Of a node the model
  keeps what reference counting and substitution read: its children and its reference
  count. The store maps the identifiers issued so far to the nodes that are not freed.
\<close>

record node =
  node_children :: "BtorNodeRef list"
  node_refs :: nat

record node_store =
  nodes :: "node_id \<rightharpoonup> node"
  next_id :: node_id

definition refs_of :: "node_store \<Rightarrow> node_id \<Rightarrow> nat" where
  "refs_of \<sigma> i = (case nodes \<sigma> i of None \<Rightarrow> 0 | Some n \<Rightarrow> node_refs n)"

text \<open>
  Modelled from the spec: \<open>acquire\<close> of the missing node store increments the reference
  count. A reference to no node is a precondition violation.
\<close>

definition acquire :: "node_store \<Rightarrow> BtorNodeRef \<Rightarrow> error + node_store" where
  "acquire \<sigma> r =
     (if \<not> ref_id r < next_id \<sigma> then Inl (Assert ''acquire: no such node'')
      else case nodes \<sigma> (ref_id r) of
        None \<Rightarrow> Inl (Assert ''acquire: no such node'')
      | Some n \<Rightarrow> Inr (\<sigma>\<lparr>nodes := (nodes \<sigma>)(ref_id r \<mapsto> n\<lparr>node_refs := node_refs n + 1\<rparr>)\<rparr>))"

text \<open>
  Modelled from the spec: \<open>release\<close> of the missing node store decrements the reference
  count; at zero it frees the node and releases its children, from an explicit work list.
  Every step lowers the sum of the stored reference counts, so the loop ends.
\<close>

definition store_weight :: "node_store \<Rightarrow> nat" where
  "store_weight \<sigma> =
     (\<Sum>i<next_id \<sigma>. case nodes \<sigma> i of None \<Rightarrow> 0 | Some n \<Rightarrow> Suc (node_refs n))"

function release_loop :: "node_store \<Rightarrow> node_id list \<Rightarrow> error + node_store" where
  "release_loop \<sigma> [] = Inr \<sigma>"
| "release_loop \<sigma> (i # work) =
     (if \<not> i < next_id \<sigma> then Inl (Assert ''release: no such node'')
      else case nodes \<sigma> i of
        None \<Rightarrow> Inl (Assert ''release: no such node'')
      | Some n \<Rightarrow>
          if node_refs n \<le> 1
          then release_loop (\<sigma>\<lparr>nodes := (nodes \<sigma>)(i := None)\<rparr>) (map ref_id (node_children n) @ work)
          else release_loop (\<sigma>\<lparr>nodes := (nodes \<sigma>)(i \<mapsto> n\<lparr>node_refs := node_refs n - 1\<rparr>)\<rparr>) work)"
  by pat_completeness auto
termination
proof (relation "measure (\<lambda>(\<sigma>, work). store_weight \<sigma>)")
  show "wf (measure (\<lambda>(\<sigma>, work). store_weight \<sigma>))" by simp
next
  fix \<sigma> :: node_store and i work n
  assume i: "\<not> \<not> i < next_id \<sigma>" and n: "nodes \<sigma> i = Some n"
  let ?w = "\<lambda>f j. case f j of None \<Rightarrow> 0 | Some n \<Rightarrow> Suc (node_refs n)"
  have "sum (?w ((nodes \<sigma>)(i := None))) {..<next_id \<sigma>} < sum (?w (nodes \<sigma>)) {..<next_id \<sigma>}"
    by (rule sum_strict_mono_ex1) (use i n in \<open>auto intro!: bexI [of _ i]\<close>)
  then show "((\<sigma>\<lparr>nodes := (nodes \<sigma>)(i := None)\<rparr>, map ref_id (node_children n) @ work), \<sigma>, i # work)
      \<in> measure (\<lambda>(\<sigma>, work). store_weight \<sigma>)"
    by (simp add: store_weight_def)
next
  fix \<sigma> :: node_store and i work n
  assume i: "\<not> \<not> i < next_id \<sigma>" and n: "nodes \<sigma> i = Some n" and r: "\<not> node_refs n \<le> 1"
  let ?w = "\<lambda>f j. case f j of None \<Rightarrow> 0 | Some n \<Rightarrow> Suc (node_refs n)"
  have "sum (?w ((nodes \<sigma>)(i \<mapsto> n\<lparr>node_refs := node_refs n - 1\<rparr>))) {..<next_id \<sigma>}
      < sum (?w (nodes \<sigma>)) {..<next_id \<sigma>}"
    by (rule sum_strict_mono_ex1) (use i n r in \<open>auto intro!: bexI [of _ i]\<close>)
  then show "((\<sigma>\<lparr>nodes := (nodes \<sigma>)(i \<mapsto> n\<lparr>node_refs := node_refs n - 1\<rparr>)\<rparr>, work), \<sigma>, i # work)
      \<in> measure (\<lambda>(\<sigma>, work). store_weight \<sigma>)"
    by (simp add: store_weight_def)
qed

definition release :: "node_store \<Rightarrow> BtorNodeRef \<Rightarrow> error + node_store" where
  "release \<sigma> r = release_loop \<sigma> [ref_id r]"

text \<open>
  Modelled from the spec: the node map of the missing \<^verbatim>\<open>btormap.c\<close>, an association from
  tag-normalized source references to destination references, created empty.
\<close>

type_synonym BtorNodeMap = "(BtorNodeRef \<times> BtorNodeRef) list"

definition btor_new_node_map :: BtorNodeMap where
  "btor_new_node_map = []"

text \<open>
  Modelled from the spec: \<^verbatim>\<open>btor_mapped_node\<close> is missing. It returns the destination
  stored for the tag-normalized source, with the source's tag on it, or nothing. As in the
  declaration it is not given the store: a look-up changes no reference count.
\<close>

definition btor_mapped_node :: "BtorNodeMap \<Rightarrow> BtorNodeRef \<Rightarrow> BtorNodeRef option" where
  "btor_mapped_node m src =
     (case map_of m (tag_normalized src) of
        None \<Rightarrow> None
      | Some d \<Rightarrow> Some (tagged (ref_tag src) d))"

text \<open>
  Modelled from the spec: \<^verbatim>\<open>btor_map_node\<close> is missing. It fails on the zero sentinel.
  A new pair is stored under the tag-normalized source, and the map acquires the source
  and the destination. A source that is mapped already keeps the reference the map holds
  on it: the new destination is acquired and the prior one is released.
\<close>

definition btor_map_node ::
  "node_store \<Rightarrow> BtorNodeMap \<Rightarrow> BtorNodeRef \<Rightarrow> BtorNodeRef \<Rightarrow> error + (node_store \<times> BtorNodeMap)" where
  "btor_map_node \<sigma> m src dst =
     (if tag_normalized src = zero_ref then Inl (Assert ''map: src is the zero sentinel'')
      else
        (case map_of m (tag_normalized src) of
           None \<Rightarrow>
             (case acquire \<sigma> src of
                Inl e \<Rightarrow> Inl e
              | Inr \<sigma>1 \<Rightarrow>
                  (case acquire \<sigma>1 dst of
                     Inl e \<Rightarrow> Inl e
                   | Inr \<sigma>2 \<Rightarrow>
                       Inr (\<sigma>2, AList.update (tag_normalized src) (tagged (ref_tag src) dst) m)))
         | Some old \<Rightarrow>
             (case acquire \<sigma> dst of
                Inl e \<Rightarrow> Inl e
              | Inr \<sigma>1 \<Rightarrow>
                  (case release \<sigma>1 old of
                     Inl e \<Rightarrow> Inl e
                   | Inr \<sigma>2 \<Rightarrow>
                       Inr (\<sigma>2, AList.update (tag_normalized src) (tagged (ref_tag src) dst) m)))))"

text \<open>
  Modelled from the spec: \<^verbatim>\<open>btor_delete_node_map\<close> is missing. It releases the source and
  the destination of every pair once; no map is left.
\<close>

fun btor_delete_node_map :: "node_store \<Rightarrow> BtorNodeMap \<Rightarrow> error + node_store" where
  "btor_delete_node_map \<sigma> [] = Inr \<sigma>"
| "btor_delete_node_map \<sigma> ((src, dst) # m) =
     (case release \<sigma> src of
        Inl e \<Rightarrow> Inl e
      | Inr \<sigma>1 \<Rightarrow>
          (case release \<sigma>1 dst of
             Inl e \<Rightarrow> Inl e
           | Inr \<sigma>2 \<Rightarrow> btor_delete_node_map \<sigma>2 m))"

text \<open>A caller that maps a list of pairs, in order; the first failing call aborts the run.\<close>

fun map_nodes ::
  "node_store \<Rightarrow> BtorNodeMap \<Rightarrow> (BtorNodeRef \<times> BtorNodeRef) list \<Rightarrow>
     error + (node_store \<times> BtorNodeMap)" where
  "map_nodes \<sigma> m [] = Inr (\<sigma>, m)"
| "map_nodes \<sigma> m ((src, dst) # ps) =
     (case btor_map_node \<sigma> m src dst of
        Inl e \<Rightarrow> Inl e
      | Inr (\<sigma>', m') \<Rightarrow> map_nodes \<sigma>' m' ps)"

text \<open>
  Modelled from the spec: the substitution engine of the missing \<^verbatim>\<open>btormap.c\<close>
  (section 4.2). It works on a stack of frames, a reference with its visit state, and uses
  the node map as its cache of results. \<open>fuel\<close> bounds the number of iterations of the
  loop. The mapper is the caller's function of the declaration: given the store, its state
  and a node it returns a new reference or nothing. Rebuilding a node from its substituted
  children is the node store's \<open>make\<close>, taken as a parameter. The record holds what the
  loop changes, and the arguments of the calls of the mapper so far.
\<close>

datatype visit = Pre | Post

datatype 'a outcome = Returned 'a | Failed error | Out_of_fuel

type_synonym 's BtorNodeMapper =
  "node_store \<Rightarrow> 's \<Rightarrow> BtorNodeRef \<Rightarrow> BtorNodeRef option \<times> node_store \<times> 's"

type_synonym rebuilder =
  "node_store \<Rightarrow> node \<Rightarrow> BtorNodeRef list \<Rightarrow> error + (BtorNodeRef \<times> node_store)"

record 's subst =
  store :: node_store
  cache :: BtorNodeMap
  mapper_state :: 's
  calls :: "BtorNodeRef list"

text \<open>
  Modelled from the spec: a result is cached in the map, which acquires its own
  references; the new reference the mapper or the rebuild returned is then released.
\<close>

definition cache_result ::
  "node_store \<Rightarrow> BtorNodeMap \<Rightarrow> BtorNodeRef \<Rightarrow> BtorNodeRef \<Rightarrow> error + (node_store \<times> BtorNodeMap)" where
  "cache_result \<sigma> m n new =
     (case btor_map_node \<sigma> m n new of
        Inl e \<Rightarrow> Inl e
      | Inr (\<sigma>1, m1) \<Rightarrow>
          (case release \<sigma>1 new of
             Inl e \<Rightarrow> Inl e
           | Inr \<sigma>2 \<Rightarrow> Inr (\<sigma>2, m1)))"

text \<open>Modelled from the spec: the substituted children of a node, read from the cache.\<close>

fun mapped_children :: "BtorNodeMap \<Rightarrow> BtorNodeRef list \<Rightarrow> BtorNodeRef list option" where
  "mapped_children m [] = Some []"
| "mapped_children m (c # cs) =
     (case btor_mapped_node m c of
        None \<Rightarrow> None
      | Some c' \<Rightarrow> (case mapped_children m cs of None \<Rightarrow> None | Some cs' \<Rightarrow> Some (c' # cs')))"

text \<open>
  Modelled from the spec: the loop. A frame whose tag-normalized node has a result in the
  map is dropped. On the first visit the mapper is tried on the tag-normalized node: its
  replacement is cached and the node's subtree is not visited; without one the node is
  pushed for its second visit under its children. The second visit rebuilds the node from
  its substituted children and caches the result.
\<close>

fun subst_loop ::
  "nat \<Rightarrow> 's BtorNodeMapper \<Rightarrow> rebuilder \<Rightarrow> 's subst \<Rightarrow> (BtorNodeRef \<times> visit) list \<Rightarrow>
     's subst \<times> unit outcome" where
  "subst_loop fuel mapper rebuild st [] = (st, Returned ())"
| "subst_loop 0 mapper rebuild st (f # stack) = (st, Out_of_fuel)"
| "subst_loop (Suc fuel) mapper rebuild st ((r, v) # stack) =
     (let n = tag_normalized r in
      if btor_mapped_node (cache st) n \<noteq> None then subst_loop fuel mapper rebuild st stack
      else
        (case v of
           Pre \<Rightarrow>
             (case mapper (store st) (mapper_state st) n of
                (res, \<sigma>1, s1) \<Rightarrow>
                  (let st1 = st\<lparr>store := \<sigma>1, mapper_state := s1, calls := calls st @ [n]\<rparr> in
                   case res of
                     Some new \<Rightarrow>
                       (case cache_result \<sigma>1 (cache st) n new of
                          Inl e \<Rightarrow> (st1, Failed e)
                        | Inr (\<sigma>2, m2) \<Rightarrow>
                            subst_loop fuel mapper rebuild (st1\<lparr>store := \<sigma>2, cache := m2\<rparr>) stack)
                   | None \<Rightarrow>
                       (case nodes \<sigma>1 (ref_id n) of
                          None \<Rightarrow> (st1, Failed (Assert ''substitute: no such node''))
                        | Some nd \<Rightarrow>
                            subst_loop fuel mapper rebuild st1
                              (map (\<lambda>c. (c, Pre)) (node_children nd) @ (n, Post) # stack))))
         | Post \<Rightarrow>
             (case nodes (store st) (ref_id n) of
                None \<Rightarrow> (st, Failed (Assert ''substitute: no such node''))
              | Some nd \<Rightarrow>
                  (case mapped_children (cache st) (node_children nd) of
                     None \<Rightarrow> (st, Failed (Assert ''substitute: child not substituted''))
                   | Some cs \<Rightarrow>
                       (case rebuild (store st) nd cs of
                          Inl e \<Rightarrow> (st, Failed e)
                        | Inr (new, \<sigma>1) \<Rightarrow>
                            (case cache_result \<sigma>1 (cache st) n new of
                               Inl e \<Rightarrow> (st\<lparr>store := \<sigma>1\<rparr>, Failed e)
                             | Inr (\<sigma>2, m2) \<Rightarrow>
                                 subst_loop fuel mapper rebuild (st\<lparr>store := \<sigma>2, cache := m2\<rparr>)
                                   stack))))))"

text \<open>
  Modelled from the spec: \<^verbatim>\<open>btor_non_recursive_extended_substitute_node\<close> is missing. After
  the loop the result of the root is read from the map, which puts the tag of the caller's
  reference on it, and is returned as a newly acquired reference.
\<close>

definition btor_non_recursive_extended_substitute_node ::
  "nat \<Rightarrow> node_store \<Rightarrow> BtorNodeMap \<Rightarrow> 's \<Rightarrow> 's BtorNodeMapper \<Rightarrow> rebuilder \<Rightarrow> BtorNodeRef \<Rightarrow>
     's subst \<times> BtorNodeRef outcome" where
  "btor_non_recursive_extended_substitute_node fuel \<sigma> m s mapper rebuild root =
     (case subst_loop fuel mapper rebuild
             \<lparr>store = \<sigma>, cache = m, mapper_state = s, calls = []\<rparr> [(root, Pre)] of
        (st, Failed e) \<Rightarrow> (st, Failed e)
      | (st, Out_of_fuel) \<Rightarrow> (st, Out_of_fuel)
      | (st, Returned u) \<Rightarrow>
          (case btor_mapped_node (cache st) root of
             None \<Rightarrow> (st, Failed (Assert ''substitute: root not substituted''))
           | Some res \<Rightarrow>
               (case acquire (store st) res of
                  Inl e \<Rightarrow> (st, Failed e)
                | Inr \<sigma>' \<Rightarrow> (st\<lparr>store := \<sigma>'\<rparr>, Returned res))))"

text \<open>
  Modelled from the spec: \<^verbatim>\<open>btor_non_recursive_substitute_node\<close> is missing. It is the same
  traversal with a mapper that maps nothing.
\<close>

definition no_mapper :: "unit BtorNodeMapper" where
  "no_mapper \<sigma> s n = (None, \<sigma>, s)"

definition btor_non_recursive_substitute_node ::
  "nat \<Rightarrow> node_store \<Rightarrow> BtorNodeMap \<Rightarrow> rebuilder \<Rightarrow> BtorNodeRef \<Rightarrow>
     unit subst \<times> BtorNodeRef outcome" where
  "btor_non_recursive_substitute_node fuel \<sigma> m rebuild root =
     btor_non_recursive_extended_substitute_node fuel \<sigma> m () no_mapper rebuild root"

text \<open>
  What the map owns. A node is present when its identifier has been issued and it is not
  freed; in a well-formed store every node has a reference (a node is freed when its count
  reaches zero). \<open>owned m i\<close> counts the references the pairs of \<open>m\<close> hold on node \<open>i\<close>, and
  \<open>bump \<sigma> f\<close> is the store \<open>\<sigma>\<close> with \<open>f i\<close> more references on every node \<open>i\<close>.
\<close>

definition present :: "node_store \<Rightarrow> BtorNodeRef \<Rightarrow> bool" where
  "present \<sigma> r = (ref_id r < next_id \<sigma> \<and> nodes \<sigma> (ref_id r) \<noteq> None)"

definition wf_store :: "node_store \<Rightarrow> bool" where
  "wf_store \<sigma> = (\<forall>i n. nodes \<sigma> i = Some n \<longrightarrow> 1 \<le> node_refs n)"

definition bump :: "node_store \<Rightarrow> (node_id \<Rightarrow> nat) \<Rightarrow> node_store" where
  "bump \<sigma> f =
     \<sigma>\<lparr>nodes := (\<lambda>i. map_option (\<lambda>n. n\<lparr>node_refs := node_refs n + f i\<rparr>) (nodes \<sigma> i))\<rparr>"

fun owned :: "BtorNodeMap \<Rightarrow> node_id \<Rightarrow> nat" where
  "owned [] i = 0"
| "owned ((src, dst) # m) i =
     (if ref_id src = i then 1 else 0) + (if ref_id dst = i then 1 else 0) + owned m i"

definition entries_present :: "node_store \<Rightarrow> BtorNodeMap \<Rightarrow> bool" where
  "entries_present \<sigma> m = (\<forall>(k, d) \<in> set m. present \<sigma> k \<and> present \<sigma> d)"

section \<open>Examples\<close>

text \<open>
  The solver state is the list of literals it was given. It answers \<^verbatim>\<open>SAT\<close> (10) unless
  the limit is not \<open>-1\<close> and is below the number of literals, when it answers
  \<^verbatim>\<open>UNKNOWN\<close> (0).
\<close>

definition recording_solver :: "c_int list PicoSAT" where
  "recording_solver =
     \<lparr>picosat_init = (\<lambda>s. []),
      picosat_set_output = (\<lambda>f s. s),
      picosat_set_prefix = (\<lambda>p s. s),
      picosat_enable_verbosity = (\<lambda>s. s),
      picosat_stats = (\<lambda>s. s),
      picosat_add = (\<lambda>lit s. s @ [lit]),
      picosat_print = (\<lambda>f s. s),
      picosat_assume = (\<lambda>lit s. s @ [lit, 0]),
      picosat_sat =
        (\<lambda>limit s. (if limit \<noteq> -1 \<and> limit <s word_of_nat (length s) then 0 else 10, s)),
      picosat_deref = (\<lambda>lit s. (1, s)),
      picosat_reset = (\<lambda>s. []),
      picosat_changed = (\<lambda>s. (0, s))\<rparr>"

text \<open>A store with two leaves and a node over them, a mapper that maps node 1 to node 2,
  and a rebuild that is never reached.\<close>

definition plain_ref :: "node_id \<Rightarrow> BtorNodeRef" where
  "plain_ref i = \<lparr>ref_id = i, ref_tag = 0\<rparr>"

definition example_store :: node_store where
  "example_store =
     \<lparr>nodes = [1 \<mapsto> \<lparr>node_children = [], node_refs = 2\<rparr>,
               2 \<mapsto> \<lparr>node_children = [], node_refs = 2\<rparr>,
               3 \<mapsto> \<lparr>node_children = [plain_ref 1, invert (plain_ref 2)], node_refs = 1\<rparr>],
      next_id = 4\<rparr>"

definition example_mapper :: "nat BtorNodeMapper" where
  "example_mapper \<sigma> s n =
     (if ref_id n = 1
      then (case acquire \<sigma> (plain_ref 2) of
              Inl e \<Rightarrow> (None, \<sigma>, s)
            | Inr \<sigma>' \<Rightarrow> (Some (plain_ref 2), \<sigma>', Suc s))
      else (None, \<sigma>, s))"

definition no_rebuild :: rebuilder where
  "no_rebuild \<sigma> nd cs = Inl (Assert ''rebuild: not available'')"

section \<open>The identifier counter\<close>

lemma sint_INT_MAX: "sint INT_MAX = 2147483647"
  by (simp add: INT_MAX_def)

lemma sless_INT_MAX: "(x <s INT_MAX) = (sint x < 2147483647)"
  by (simp add: word_sless_alt sint_INT_MAX)

lemma sint_succ:
  fixes x :: c_int
  assumes "sint x < 2147483647"
  shows "sint (x + 1) = sint x + 1"
proof -
  have lo: "- (2 ^ 31) \<le> sint x" using sint_ge [of x] by simp
  have "sint (x + 1) = signed_take_bit 31 (sint x + 1)"
    by (simp add: sint_word_ariths)
  also have "\<dots> = sint x + 1"
    using assms lo by (simp add: signed_take_bit_int_eq_self)
  finally show ?thesis .
qed

lemma next_ok:
  "sint (smgr_id s) < 2147483647 \<Longrightarrow>
   btor_next_cnf_id_sat_mgr (Ptr s) = Inr (smgr_id s, s\<lparr>smgr_id := smgr_id s + 1\<rparr>)"
  by (simp add: btor_next_cnf_id_sat_mgr_def sless_INT_MAX)

lemma next_fail:
  "\<not> sint (smgr_id s) < 2147483647 \<Longrightarrow>
   btor_next_cnf_id_sat_mgr (Ptr s) = Inl (Assert ''smgr->id < INT_MAX'')"
  by (simp add: btor_next_cnf_id_sat_mgr_def sless_INT_MAX)

lemma issue_ids_ok:
  "sint (smgr_id s) + int n \<le> 2147483647 \<Longrightarrow>
   issue_ids n s =
     Inr (map (\<lambda>k. smgr_id s + of_nat k) [0..<n], s\<lparr>smgr_id := smgr_id s + of_nat n\<rparr>)"
proof (induction n arbitrary: s)
  case 0
  then show ?case by simp
next
  case (Suc n)
  have lt: "sint (smgr_id s) < 2147483647" using Suc.prems by simp
  let ?s' = "s\<lparr>smgr_id := smgr_id s + 1\<rparr>"
  have "sint (smgr_id ?s') + int n \<le> 2147483647"
    using Suc.prems sint_succ [OF lt] by simp
  from Suc.IH [OF this] show ?case
    by (simp add: next_ok [OF lt] map_upt_Suc del: upt_Suc add: add.assoc)
qed

lemma issue_ids_fail:
  "2147483647 < sint (smgr_id s) + int n \<Longrightarrow>
   issue_ids n s = Inl (Assert ''smgr->id < INT_MAX'')"
proof (induction n arbitrary: s)
  case 0
  then show ?case using sint_lt [of "smgr_id s"] by simp
next
  case (Suc n)
  show ?case
  proof (cases "sint (smgr_id s) < 2147483647")
    case True
    let ?s' = "s\<lparr>smgr_id := smgr_id s + 1\<rparr>"
    have "2147483647 < sint (smgr_id ?s') + int n"
      using Suc.prems sint_succ [OF True] by simp
    from Suc.IH [OF this] show ?thesis
      by (simp add: next_ok [OF True])
  next
    case False
    then show ?thesis by (simp add: next_fail)
  qed
qed

lemma sint_add_nat:
  fixes x :: c_int
  shows "sint x + int k \<le> 2147483647 \<Longrightarrow> sint (x + of_nat k) = sint x + int k"
proof (induction k)
  case 0
  then show ?case by simp
next
  case (Suc k)
  then have "sint (x + of_nat k) = sint x + int k" by simp
  moreover from this Suc.prems have "sint (x + of_nat k) < 2147483647" by simp
  ultimately show ?case using sint_succ [of "x + of_nat k"] by (simp add: ac_simps)
qed

lemma new_fresh:
  "btor_new_sat_mgr mm v = Inr s \<Longrightarrow> s = \<lparr>smgr_id = 1, smgr_verbosity = v, smgr_mm = mm\<rparr>"
  by (simp add: btor_new_sat_mgr_def split: if_splits)

lemma issue_ids_values:
  assumes "sint (smgr_id s) + int n \<le> 2147483647"
  shows "\<exists>ids. issue_ids n s = Inr (ids, s\<lparr>smgr_id := smgr_id s + of_nat n\<rparr>) \<and>
           map sint ids = map (\<lambda>k. sint (smgr_id s) + int k) [0..<n]"
proof -
  have "map sint (map (\<lambda>k. smgr_id s + of_nat k) [0..<n]) =
        map (\<lambda>k. sint (smgr_id s) + int k) [0..<n]"
    using assms by (simp add: sint_add_nat)
  with issue_ids_ok [OF assms] show ?thesis by blast
qed

lemma issue_ids_Inr_bound:
  "issue_ids n s = Inr r \<Longrightarrow> sint (smgr_id s) + int n \<le> 2147483647"
  using issue_ids_fail [of s n] by (cases "sint (smgr_id s) + int n \<le> 2147483647") auto

lemma sorted_wrt_sless:
  "sorted_wrt (<s) (ids :: c_int list) = sorted_wrt (<) (map sint ids)"
proof -
  have "(<s) = (\<lambda>x y :: c_int. sint x < sint y)"
    by (simp add: fun_eq_iff word_sless_alt)
  then show ?thesis by (simp add: sorted_wrt_map)
qed

lemma sorted_wrt_offsets: "sorted_wrt (<) (map (\<lambda>k. (a::int) + int k) [0..<n])"
  by (simp add: sorted_wrt_map sorted_wrt_upt) 

text \<open>
  C1, as amended. A manager that \<^verbatim>\<open>btor_new_sat_mgr\<close> returned has the identifier 1.
  For every \<open>N\<close> below \<^verbatim>\<open>INT_MAX\<close>, \<open>N\<close> calls of \<^verbatim>\<open>btor_next_cnf_id_sat_mgr\<close> in a row
  all return: the \<open>k\<close>-th returns \<open>k\<close>, so the identifiers are \<open>1, \<dots>, N\<close> and strictly
  increasing as signed integers, and for \<open>N \<ge> 1\<close> \<^verbatim>\<open>btor_get_last_cnf_id_sat_mgr\<close> then
  returns \<open>N\<close>, the identifier issued last, and leaves the manager as it is.
\<close>

theorem cnf_ids_count_up:
  assumes "btor_new_sat_mgr mm verbosity = Inr smgr" and "int N < sint INT_MAX"
  shows "smgr_id smgr = 1 \<and>
    (\<exists>ids smgr'. issue_ids N smgr = Inr (ids, smgr') \<and>
       map sint ids = map int [1..<Suc N] \<and> sorted_wrt (<s) ids \<and>
       (1 \<le> N \<longrightarrow>
          btor_get_last_cnf_id_sat_mgr (Ptr smgr') = Inr (last ids, smgr') \<and>
          sint (last ids) = int N))"
proof -
  have s: "smgr = \<lparr>smgr_id = 1, smgr_verbosity = verbosity, smgr_mm = mm\<rparr>"
    using assms(1) by (rule new_fresh)
  have bound: "sint (smgr_id smgr) + int N \<le> 2147483647"
    using assms(2) by (simp add: s sint_INT_MAX)
  from issue_ids_values [OF bound] obtain ids where
    run: "issue_ids N smgr = Inr (ids, smgr\<lparr>smgr_id := smgr_id smgr + of_nat N\<rparr>)" and
    vals: "map sint ids = map (\<lambda>k. sint (smgr_id smgr) + int k) [0..<N]"
    by blast
  let ?s' = "smgr\<lparr>smgr_id := smgr_id smgr + of_nat N\<rparr>"
  have vals': "map sint ids = map int [1..<Suc N]"
    unfolding vals by (simp add: s map_Suc_upt [symmetric] del: upt_Suc)
  have incr: "sorted_wrt (<s) ids"
    unfolding sorted_wrt_sless vals by (rule sorted_wrt_offsets)
  have id': "sint (smgr_id ?s') = 1 + int N"
    using sint_add_nat [OF bound] by (simp add: s)
  have last: "btor_get_last_cnf_id_sat_mgr (Ptr ?s') = Inr (last ids, ?s') \<and> sint (last ids) = int N"
    if "1 \<le> N"
  proof -
    from that vals' have ne: "ids \<noteq> []" by auto
    have "sint (last ids) = last (map sint ids)" using ne by (simp add: last_map)
    also have "\<dots> = int N" using that unfolding vals' by (simp add: last_map)
    finally have l: "sint (last ids) = int N" .
    have "sint (smgr_id ?s' - 1) = signed_take_bit 31 (sint (smgr_id ?s') - 1)"
      by (simp add: sint_word_ariths)
    also have "\<dots> = int N" using assms(2) unfolding id'
      by (simp add: signed_take_bit_int_eq_self sint_INT_MAX)
    finally have "sint (smgr_id ?s' - 1) = sint (last ids)" using l by simp
    then have "smgr_id ?s' - 1 = last ids" by (rule signed_word_eqI)
    moreover have "1 <s smgr_id ?s'" using that id' by (simp add: word_sless_alt)
    ultimately show ?thesis using l by (simp add: btor_get_last_cnf_id_sat_mgr_def)
  qed
  from run vals' incr last show ?thesis by (auto simp: s)
qed

theorem cnf_ids_count_up_witness:
  "btor_new_sat_mgr (Ptr 7) 0 = Inr \<lparr>smgr_id = 1, smgr_verbosity = 0, smgr_mm = Ptr 7\<rparr> \<and>
   issue_ids 3 \<lparr>smgr_id = 1, smgr_verbosity = 0, smgr_mm = Ptr 7\<rparr> =
     Inr ([1, 2, 3], \<lparr>smgr_id = 4, smgr_verbosity = 0, smgr_mm = Ptr 7\<rparr>) \<and>
   btor_get_last_cnf_id_sat_mgr (Ptr \<lparr>smgr_id = 4, smgr_verbosity = 0, smgr_mm = Ptr 7\<rparr>) =
     Inr (3, \<lparr>smgr_id = 4, smgr_verbosity = 0, smgr_mm = Ptr 7\<rparr>)"
proof -
  have new: "btor_new_sat_mgr (Ptr 7) 0 = Inr \<lparr>smgr_id = 1, smgr_verbosity = 0, smgr_mm = Ptr 7\<rparr>"
    by (simp add: btor_new_sat_mgr_def word_sle_eq)
  have small: "int 3 < sint INT_MAX" by (simp add: INT_MAX_def)
  have run: "issue_ids 3 \<lparr>smgr_id = 1, smgr_verbosity = 0, smgr_mm = Ptr 7\<rparr> =
     Inr ([1, 2, 3], \<lparr>smgr_id = 4, smgr_verbosity = 0, smgr_mm = Ptr 7\<rparr>)"
    by (simp add: numeral_3_eq_3 btor_next_cnf_id_sat_mgr_def INT_MAX_def word_sless_alt)
  from cnf_ids_count_up [OF new small] new run show ?thesis by simp
qed

text \<open>
  Without the bound the statement fails: after 2147483646 calls on a new manager the
  stored identifier is \<^verbatim>\<open>INT_MAX\<close>, and call number 2147483647 does not return 2147483647 but
  stops at the assertion \<^verbatim>\<open>smgr->id < INT_MAX\<close>.
\<close>

theorem cnf_ids_exhausted_counterexample:
  "btor_new_sat_mgr (Ptr 7) 0 = Inr \<lparr>smgr_id = 1, smgr_verbosity = 0, smgr_mm = Ptr 7\<rparr> \<and>
   (\<exists>ids. issue_ids 2147483646 \<lparr>smgr_id = 1, smgr_verbosity = 0, smgr_mm = Ptr 7\<rparr> =
      Inr (ids, \<lparr>smgr_id = 2147483647, smgr_verbosity = 0, smgr_mm = Ptr 7\<rparr>)) \<and>
   btor_next_cnf_id_sat_mgr (Ptr \<lparr>smgr_id = 2147483647, smgr_verbosity = 0, smgr_mm = Ptr 7\<rparr>) =
     Inl (Assert ''smgr->id < INT_MAX'') \<and>
   issue_ids 2147483647 \<lparr>smgr_id = 1, smgr_verbosity = 0, smgr_mm = Ptr 7\<rparr> =
     Inl (Assert ''smgr->id < INT_MAX'')"
proof -
  let ?s = "\<lparr>smgr_id = 1, smgr_verbosity = 0, smgr_mm = Ptr 7\<rparr>"
  have new: "btor_new_sat_mgr (Ptr 7) 0 = Inr ?s"
    by (simp add: btor_new_sat_mgr_def word_sle_eq)
  have "sint (smgr_id ?s) + int 2147483646 \<le> 2147483647" by simp
  from issue_ids_values [OF this] have run:
    "\<exists>ids. issue_ids 2147483646 ?s =
       Inr (ids, \<lparr>smgr_id = 2147483647, smgr_verbosity = 0, smgr_mm = Ptr 7\<rparr>)"
    by auto
  have nxt: "btor_next_cnf_id_sat_mgr
       (Ptr \<lparr>smgr_id = 2147483647, smgr_verbosity = 0, smgr_mm = Ptr 7\<rparr>) =
     Inl (Assert ''smgr->id < INT_MAX'')"
    by (rule next_fail) simp
  have "2147483647 < sint (smgr_id ?s) + int 2147483647" by simp
  from issue_ids_fail [OF this] new run nxt show ?thesis by blast
qed

text \<open>
  C5. \<^verbatim>\<open>btor_next_cnf_id_sat_mgr\<close> stops at its assertion when the stored identifier has
  reached \<^verbatim>\<open>INT_MAX\<close>, the largest value of an \<^verbatim>\<open>int\<close>. When the stored identifier is below
  \<^verbatim>\<open>INT_MAX\<close> the call returns it and stores its successor, which has not wrapped around.
\<close>

theorem next_cnf_id_exhaustion:
  "(smgr_id smgr = INT_MAX \<longrightarrow>
      btor_next_cnf_id_sat_mgr (Ptr smgr) = Inl (Assert ''smgr->id < INT_MAX'')) \<and>
   (smgr_id smgr <s INT_MAX \<longrightarrow>
      btor_next_cnf_id_sat_mgr (Ptr smgr) =
        Inr (smgr_id smgr, smgr\<lparr>smgr_id := smgr_id smgr + 1\<rparr>) \<and>
      sint (smgr_id smgr + 1) = sint (smgr_id smgr) + 1)"
  by (simp add: btor_next_cnf_id_sat_mgr_def sless_INT_MAX sint_succ)

theorem next_cnf_id_exhaustion_witness:
  "btor_next_cnf_id_sat_mgr (Ptr \<lparr>smgr_id = 2147483647, smgr_verbosity = 0, smgr_mm = Ptr 7\<rparr>) =
     Inl (Assert ''smgr->id < INT_MAX'') \<and>
   btor_next_cnf_id_sat_mgr (Ptr \<lparr>smgr_id = 41, smgr_verbosity = 0, smgr_mm = Ptr 7\<rparr>) =
     Inr (41, \<lparr>smgr_id = 42, smgr_verbosity = 0, smgr_mm = Ptr 7\<rparr>)"
  using
    next_cnf_id_exhaustion [of "\<lparr>smgr_id = 2147483647, smgr_verbosity = 0, smgr_mm = Ptr 7\<rparr>"]
    next_cnf_id_exhaustion [of "\<lparr>smgr_id = 41, smgr_verbosity = 0, smgr_mm = Ptr 7\<rparr>"]
  by (simp add: INT_MAX_def word_sless_alt)

text \<open>
  C8. The status codes are \<^verbatim>\<open>UNKNOWN = 0\<close>, \<^verbatim>\<open>SAT = 10\<close>, \<^verbatim>\<open>UNSAT = 20\<close> and
  \<^verbatim>\<open>PARSE_ERROR = 1\<close>, and no two of them are equal.
\<close>

theorem status_codes:
  "BOOLECTOR_UNKNOWN = 0 \<and> BOOLECTOR_SAT = 10 \<and> BOOLECTOR_UNSAT = 20 \<and>
   BOOLECTOR_PARSE_ERROR = 1 \<and>
   distinct [BOOLECTOR_UNKNOWN, BOOLECTOR_SAT, BOOLECTOR_UNSAT, BOOLECTOR_PARSE_ERROR]"
  by (simp add: BOOLECTOR_UNKNOWN_def BOOLECTOR_SAT_def BOOLECTOR_UNSAT_def
      BOOLECTOR_PARSE_ERROR_def)

text \<open>
  C9. \<^verbatim>\<open>btor_get_last_cnf_id_sat_mgr\<close> stops at its assertion while the stored identifier
  is still the initial 1. On a manager that was created by \<^verbatim>\<open>btor_new_sat_mgr\<close> and has
  since issued \<open>N \<ge> 1\<close> identifiers, it returns normally, with the stored identifier minus 1.
\<close>

theorem get_last_cnf_id_needs_an_id:
  "(smgr_id smgr = 1 \<longrightarrow>
      btor_get_last_cnf_id_sat_mgr (Ptr smgr) = Inl (Assert ''smgr->id > 1'')) \<and>
   (btor_new_sat_mgr mm verbosity = Inr smgr0 \<and> 1 \<le> N \<and> issue_ids N smgr0 = Inr (ids, smgr)
      \<longrightarrow> btor_get_last_cnf_id_sat_mgr (Ptr smgr) = Inr (smgr_id smgr - 1, smgr))"
proof -
  have first: "btor_get_last_cnf_id_sat_mgr (Ptr smgr) = Inl (Assert ''smgr->id > 1'')"
    if "smgr_id smgr = 1"
    using that by (simp add: btor_get_last_cnf_id_sat_mgr_def)
  have second: "btor_get_last_cnf_id_sat_mgr (Ptr smgr) = Inr (smgr_id smgr - 1, smgr)"
    if new: "btor_new_sat_mgr mm verbosity = Inr smgr0" and N: "1 \<le> N"
      and run: "issue_ids N smgr0 = Inr (ids, smgr)"
  proof -
    have s0: "smgr_id smgr0 = 1" using new_fresh [OF new] by simp
    have bound: "sint (smgr_id smgr0) + int N \<le> 2147483647"
      using run by (rule issue_ids_Inr_bound)
    from issue_ids_ok [OF bound] run
    have "smgr = smgr0\<lparr>smgr_id := smgr_id smgr0 + of_nat N\<rparr>" by simp
    then have "sint (smgr_id smgr) = 1 + int N"
      using sint_add_nat [OF bound] s0 by simp
    then have "1 <s smgr_id smgr" using N by (simp add: word_sless_alt)
    then show ?thesis by (simp add: btor_get_last_cnf_id_sat_mgr_def)
  qed
  from first second show ?thesis by blast
qed

theorem get_last_cnf_id_needs_an_id_witness:
  "btor_get_last_cnf_id_sat_mgr (Ptr \<lparr>smgr_id = 1, smgr_verbosity = 2, smgr_mm = Ptr 7\<rparr>) =
     Inl (Assert ''smgr->id > 1'') \<and>
   btor_new_sat_mgr (Ptr 7) 2 = Inr \<lparr>smgr_id = 1, smgr_verbosity = 2, smgr_mm = Ptr 7\<rparr> \<and>
   issue_ids 2 \<lparr>smgr_id = 1, smgr_verbosity = 2, smgr_mm = Ptr 7\<rparr> =
     Inr ([1, 2], \<lparr>smgr_id = 3, smgr_verbosity = 2, smgr_mm = Ptr 7\<rparr>) \<and>
   btor_get_last_cnf_id_sat_mgr (Ptr \<lparr>smgr_id = 3, smgr_verbosity = 2, smgr_mm = Ptr 7\<rparr>) =
     Inr (2, \<lparr>smgr_id = 3, smgr_verbosity = 2, smgr_mm = Ptr 7\<rparr>)"
proof -
  let ?s0 = "\<lparr>smgr_id = 1, smgr_verbosity = 2, smgr_mm = Ptr 7\<rparr>"
  let ?s2 = "\<lparr>smgr_id = 3, smgr_verbosity = 2, smgr_mm = Ptr 7\<rparr>"
  have new: "btor_new_sat_mgr (Ptr 7) 2 = Inr ?s0"
    by (simp add: btor_new_sat_mgr_def word_sle_eq)
  have run: "issue_ids 2 ?s0 = Inr ([1, 2], ?s2)"
    by (simp add: numeral_2_eq_2 btor_next_cnf_id_sat_mgr_def INT_MAX_def word_sless_alt)
  from get_last_cnf_id_needs_an_id [of ?s0 "Ptr 7" 2 ?s0 2 "[1, 2]"]
  have a: "btor_get_last_cnf_id_sat_mgr (Ptr ?s0) = Inl (Assert ''smgr->id > 1'')" by simp
  from get_last_cnf_id_needs_an_id [of ?s2 "Ptr 7" 2 ?s0 2 "[1, 2]"] new run
  have b: "btor_get_last_cnf_id_sat_mgr (Ptr ?s2) = Inr (2, ?s2)" by simp
  from a b new run show ?thesis by simp
qed

subsection \<open>What the other functions leave alone\<close>

lemma print_verbose_msg_Ptr:
  "print_verbose_msg (Ptr m) w = Inr (w\<lparr>stderr := stderr w @ [''[btorsat] '' @ m]\<rparr>)"
  by (simp add: print_verbose_msg_def)

text \<open>
  \<^verbatim>\<open>btor_sat_sat\<close> hands the limit to PicoSAT and returns PicoSAT's answer as it is: what
  the answer can be is decided in the backend.
\<close>

lemma btor_sat_sat_returns_backend_answer:
  "\<exists>w'. btor_sat_sat P (Ptr smgr) limit w =
     Inr (fst (picosat_sat P limit (solver w)), smgr, w')"
  by (simp add: btor_sat_sat_def print_verbose_msg_Ptr split: prod.split)

text \<open>
  C10. Each function of \<^verbatim>\<open>btorsat.c\<close> that works on a live manager, other than
  \<^verbatim>\<open>btor_next_cnf_id_sat_mgr\<close>, returns and leaves the manager as it found it: the same
  identifier, verbosity and memory manager. That covers init, set_output, enable_verbosity,
  print_stats, add, dump_cnf, assume, sat, deref, reset, changed_assignments and, once an
  identifier has been issued, get_last. \<^verbatim>\<open>btor_next_cnf_id_sat_mgr\<close> changes the identifier
  and nothing else.
\<close>

theorem sat_mgr_frame:
  "smgr_after (btor_init_sat P (Ptr smgr) w) = Some smgr \<and>
   smgr_after (btor_set_output_sat P (Ptr smgr) (Ptr f) w) = Some smgr \<and>
   smgr_after (btor_enable_verbosity_sat P (Ptr smgr) w) = Some smgr \<and>
   smgr_after (btor_print_stats_sat P (Ptr smgr) w) = Some smgr \<and>
   smgr_after (btor_add_sat P (Ptr smgr) lit w) = Some smgr \<and>
   smgr_after (btor_dump_cnf_sat P (Ptr smgr) (Ptr f) w) = Some smgr \<and>
   smgr_after (btor_assume_sat P (Ptr smgr) lit w) = Some smgr \<and>
   smgr_after (btor_sat_sat P (Ptr smgr) limit w) = Some smgr \<and>
   smgr_after (btor_deref_sat P (Ptr smgr) lit w) = Some smgr \<and>
   smgr_after (btor_reset_sat P (Ptr smgr) w) = Some smgr \<and>
   smgr_after (btor_changed_assignments_sat P (Ptr smgr) w) = Some smgr \<and>
   (1 <s smgr_id smgr \<longrightarrow>
      btor_get_last_cnf_id_sat_mgr (Ptr smgr) = Inr (smgr_id smgr - 1, smgr)) \<and>
   (smgr_id smgr <s INT_MAX \<longrightarrow>
      (\<exists>i smgr'. btor_next_cnf_id_sat_mgr (Ptr smgr) = Inr (i, smgr') \<and>
         smgr_id smgr' \<noteq> smgr_id smgr \<and>
         smgr_verbosity smgr' = smgr_verbosity smgr \<and> smgr_mm smgr' = smgr_mm smgr))"
proof -
  have "smgr_after (btor_init_sat P (Ptr smgr) w) = Some smgr"
    by (simp add: smgr_after_def btor_init_sat_def print_verbose_msg_Ptr)
  moreover have "smgr_after (btor_set_output_sat P (Ptr smgr) (Ptr f) w) = Some smgr"
    by (simp add: smgr_after_def btor_set_output_sat_def)
  moreover have "smgr_after (btor_enable_verbosity_sat P (Ptr smgr) w) = Some smgr"
    by (simp add: smgr_after_def btor_enable_verbosity_sat_def)
  moreover have "smgr_after (btor_print_stats_sat P (Ptr smgr) w) = Some smgr"
    by (simp add: smgr_after_def btor_print_stats_sat_def)
  moreover have "smgr_after (btor_add_sat P (Ptr smgr) lit w) = Some smgr"
    by (simp add: smgr_after_def btor_add_sat_def)
  moreover have "smgr_after (btor_dump_cnf_sat P (Ptr smgr) (Ptr f) w) = Some smgr"
    by (simp add: smgr_after_def btor_dump_cnf_sat_def)
  moreover have "smgr_after (btor_assume_sat P (Ptr smgr) lit w) = Some smgr"
    by (simp add: smgr_after_def btor_assume_sat_def)
  moreover have "smgr_after (btor_sat_sat P (Ptr smgr) limit w) = Some smgr"
    by (simp add: smgr_after_def btor_sat_sat_def print_verbose_msg_Ptr split: prod.split)
  moreover have "smgr_after (btor_deref_sat P (Ptr smgr) lit w) = Some smgr"
    by (simp add: smgr_after_def btor_deref_sat_def split: prod.split)
  moreover have "smgr_after (btor_reset_sat P (Ptr smgr) w) = Some smgr"
    by (simp add: smgr_after_def btor_reset_sat_def print_verbose_msg_Ptr)
  moreover have "smgr_after (btor_changed_assignments_sat P (Ptr smgr) w) = Some smgr"
    by (simp add: smgr_after_def btor_changed_assignments_sat_def split: prod.split)
  moreover have "1 <s smgr_id smgr \<longrightarrow>
      btor_get_last_cnf_id_sat_mgr (Ptr smgr) = Inr (smgr_id smgr - 1, smgr)"
    by (simp add: btor_get_last_cnf_id_sat_mgr_def)
  moreover have "smgr_id smgr <s INT_MAX \<longrightarrow>
      (\<exists>i smgr'. btor_next_cnf_id_sat_mgr (Ptr smgr) = Inr (i, smgr') \<and>
         smgr_id smgr' \<noteq> smgr_id smgr \<and>
         smgr_verbosity smgr' = smgr_verbosity smgr \<and> smgr_mm smgr' = smgr_mm smgr)"
    by (simp add: btor_next_cnf_id_sat_mgr_def)
  ultimately show ?thesis by blast
qed

theorem sat_mgr_frame_witness:
  "smgr_after (btor_add_sat recording_solver
       (Ptr \<lparr>smgr_id = 5, smgr_verbosity = 3, smgr_mm = Ptr 7\<rparr>) 4 \<lparr>solver = [], stderr = []\<rparr>) =
     Some \<lparr>smgr_id = 5, smgr_verbosity = 3, smgr_mm = Ptr 7\<rparr> \<and>
   smgr_after (btor_sat_sat recording_solver
       (Ptr \<lparr>smgr_id = 5, smgr_verbosity = 3, smgr_mm = Ptr 7\<rparr>) (-1) \<lparr>solver = [], stderr = []\<rparr>) =
     Some \<lparr>smgr_id = 5, smgr_verbosity = 3, smgr_mm = Ptr 7\<rparr> \<and>
   btor_get_last_cnf_id_sat_mgr (Ptr \<lparr>smgr_id = 5, smgr_verbosity = 3, smgr_mm = Ptr 7\<rparr>) =
     Inr (4, \<lparr>smgr_id = 5, smgr_verbosity = 3, smgr_mm = Ptr 7\<rparr>) \<and>
   btor_next_cnf_id_sat_mgr (Ptr \<lparr>smgr_id = 5, smgr_verbosity = 3, smgr_mm = Ptr 7\<rparr>) =
     Inr (5, \<lparr>smgr_id = 6, smgr_verbosity = 3, smgr_mm = Ptr 7\<rparr>)"
proof -
  let ?m = "\<lparr>smgr_id = 5, smgr_verbosity = 3, smgr_mm = Ptr 7\<rparr>"
  have a: "1 <s smgr_id ?m" by (simp add: word_sless_alt)
  have b: "smgr_id ?m <s INT_MAX" by (simp add: word_sless_alt INT_MAX_def)
  have c: "btor_next_cnf_id_sat_mgr (Ptr ?m) = Inr (5, \<lparr>smgr_id = 6, smgr_verbosity = 3, smgr_mm = Ptr 7\<rparr>)"
    using b by (simp add: btor_next_cnf_id_sat_mgr_def)
  from sat_mgr_frame [of recording_solver ?m "\<lparr>solver = [], stderr = []\<rparr>" 0 4 "-1"] a b c
  show ?thesis by simp
qed

section \<open>Division by zero\<close>

text \<open>
  C7. For operands of one width, whatever it is, unsigned division by zero gives the bit
  vector of all ones, which is \<open>-1\<close>, and the unsigned remainder by zero is the dividend.
\<close>

theorem division_by_zero:
  "boolector_udiv n0 0 = - 1 \<and>
   unat (boolector_udiv n0 (0 :: 'a::len word)) = 2 ^ LENGTH('a) - 1 \<and>
   sint (boolector_udiv n0 (0 :: 'a::len word)) = - 1 \<and>
   boolector_urem n0 0 = n0"
  by (simp add: boolector_udiv_def boolector_urem_def unsigned_minus_1_eq_mask
      mask_eq_exp_minus_1)

section \<open>Facts about tags\<close>

lemma ref_id_tag:
  "ref_id (tagged t r) = ref_id r" "ref_id (tag_normalized r) = ref_id r"
  by (simp_all add: tagged_def tag_normalized_def)

lemma ref_tag_normalized: "ref_tag (tag_normalized r) = 0"
  by (simp add: tag_normalized_def)

lemma ref_tag_tagged: "ref_tag (tagged t r) = ref_tag r XOR t"
  by (simp add: tagged_def)

lemma tagged_zero: "tagged 0 r = r"
  by (simp add: tagged_def)

lemma tagged_tagged: "tagged t (tagged t r) = r"
  by (simp add: tagged_def xor.assoc)

lemma tagged_twice: "tagged t (tagged u r) = tagged (u XOR t) r"
  by (simp add: tagged_def xor.assoc)

lemma tag_normalized_tagged: "tag_normalized (tagged t r) = tag_normalized r"
  by (simp add: tagged_def tag_normalized_def)

lemma tag_normalized_idem: "tag_normalized (tag_normalized r) = tag_normalized r"
  by (simp add: tag_normalized_def)

lemma present_tag:
  "present \<sigma> (tagged t r) = present \<sigma> r" "present \<sigma> (tag_normalized r) = present \<sigma> r"
  by (simp_all add: present_def tagged_def tag_normalized_def)

lemma not_inverted_normalized: "\<not> is_inverted (tag_normalized r)"
  by (simp add: is_inverted_def ref_tag_normalized)

lemma is_inverted_invert: "is_inverted (invert r) = (\<not> is_inverted r)"
  by (simp add: is_inverted_def invert_def ref_tag_tagged bit_xor_iff bit_1_iff)

lemmas tag_simps =
  ref_id_tag ref_tag_normalized ref_tag_tagged tagged_zero tagged_tagged
  tag_normalized_tagged tag_normalized_idem present_tag not_inverted_normalized

section \<open>The node map\<close>

lemma bump_zero: "bump \<sigma> (\<lambda>i. 0) = \<sigma>"
  by (simp add: bump_def option.map_ident)

lemma acquire_bump:
  assumes "present \<sigma> r"
  shows "acquire (bump \<sigma> f) r = Inr (bump \<sigma> (f(ref_id r := f (ref_id r) + 1)))"
proof -
  from assms obtain n where n: "nodes \<sigma> (ref_id r) = Some n" and lt: "ref_id r < next_id \<sigma>"
    by (auto simp: present_def)
  have "(nodes (bump \<sigma> f))(ref_id r \<mapsto> n\<lparr>node_refs := node_refs n + f (ref_id r) + 1\<rparr>) =
        nodes (bump \<sigma> (f(ref_id r := f (ref_id r) + 1)))"
    using n by (auto simp: bump_def fun_eq_iff)
  then show ?thesis using n lt by (simp add: acquire_def bump_def)
qed

lemma acquire_present:
  "acquire (bump \<sigma> f) r = Inr \<sigma>' \<Longrightarrow> present \<sigma> r"
  by (auto simp: acquire_def bump_def present_def split: if_splits option.splits)

lemma release_bump:
  assumes "wf_store \<sigma>" and "present \<sigma> r" and "1 \<le> f (ref_id r)"
  shows "release (bump \<sigma> f) r = Inr (bump \<sigma> (f(ref_id r := f (ref_id r) - 1)))"
proof -
  from assms(2) obtain n where n: "nodes \<sigma> (ref_id r) = Some n" and lt: "ref_id r < next_id \<sigma>"
    by (auto simp: present_def)
  from assms(1) n have "1 \<le> node_refs n" by (auto simp: wf_store_def)
  with assms(3) have big: "\<not> node_refs n + f (ref_id r) \<le> 1" by simp
  have "(nodes (bump \<sigma> f))(ref_id r \<mapsto> n\<lparr>node_refs := node_refs n + f (ref_id r) - 1\<rparr>) =
        nodes (bump \<sigma> (f(ref_id r := f (ref_id r) - 1)))"
    using n assms(3) by (auto simp: bump_def fun_eq_iff)
  then show ?thesis using n lt big by (simp add: release_def bump_def)
qed

lemma owned_update_fresh:
  "map_of m k = None \<Longrightarrow>
   owned (AList.update k v m) i =
     (if ref_id k = i then 1 else 0) + (if ref_id v = i then 1 else 0) + owned m i"
  by (induction m) (auto split: if_splits)

lemma owned_update_old:
  "map_of m k = Some old \<Longrightarrow>
   owned (AList.update k v m) i + (if ref_id old = i then 1 else 0) =
     (if ref_id v = i then 1 else 0) + owned m i"
  by (induction m) (auto split: if_splits)

lemma owned_old_pos: "map_of m k = Some old \<Longrightarrow> 1 \<le> owned m (ref_id old)"
  by (induction m) (auto split: if_splits)

lemma entries_present_update:
  "entries_present \<sigma> m \<Longrightarrow> present \<sigma> k \<Longrightarrow> present \<sigma> v \<Longrightarrow>
   entries_present \<sigma> (AList.update k v m)"
  by (induction m) (auto simp: entries_present_def)

lemma entries_present_old:
  "entries_present \<sigma> m \<Longrightarrow> map_of m k = Some old \<Longrightarrow> present \<sigma> old"
  by (auto simp: entries_present_def dest!: map_of_SomeD)

lemma mapped_after_update:
  "btor_mapped_node (AList.update (tag_normalized src) (tagged (ref_tag src) dst) m) src = Some dst"
  by (simp add: btor_mapped_node_def update_conv' tagged_tagged)

lemma map_node_owned:
  assumes wf: "wf_store \<sigma>" and ep: "entries_present \<sigma> m"
    and run: "btor_map_node (bump \<sigma> (owned m)) m src dst = Inr (\<sigma>', m')"
  shows "\<sigma>' = bump \<sigma> (owned m') \<and> entries_present \<sigma> m' \<and> btor_mapped_node m' src = Some dst"
proof (cases "map_of m (tag_normalized src)")
  case None
  from run None obtain \<sigma>1 where
    a1: "acquire (bump \<sigma> (owned m)) src = Inr \<sigma>1" and
    a2: "acquire \<sigma>1 dst = Inr \<sigma>'" and
    m': "m' = AList.update (tag_normalized src) (tagged (ref_tag src) dst) m"
    by (auto simp: btor_map_node_def split: if_splits sum.splits)
  have ps: "present \<sigma> src" using a1 by (rule acquire_present)
  let ?f1 = "(owned m)(ref_id src := owned m (ref_id src) + 1)"
  have s1: "\<sigma>1 = bump \<sigma> ?f1" using a1 acquire_bump [OF ps, of "owned m"] by simp
  have pd: "present \<sigma> dst" using a2 unfolding s1 by (rule acquire_present)
  have "\<sigma>' = bump \<sigma> (?f1(ref_id dst := ?f1 (ref_id dst) + 1))"
    using a2 acquire_bump [OF pd, of ?f1] unfolding s1 by simp
  moreover have "?f1(ref_id dst := ?f1 (ref_id dst) + 1) = owned m'"
    unfolding m' by (auto simp: fun_eq_iff owned_update_fresh [OF None] ref_id_tag)
  ultimately show ?thesis
    using ep ps pd by (simp add: m' entries_present_update mapped_after_update present_tag)
next
  case (Some old)
  from run Some obtain \<sigma>1 where
    a1: "acquire (bump \<sigma> (owned m)) dst = Inr \<sigma>1" and
    a2: "release \<sigma>1 old = Inr \<sigma>'" and
    m': "m' = AList.update (tag_normalized src) (tagged (ref_tag src) dst) m"
    by (auto simp: btor_map_node_def split: if_splits sum.splits)
  have pd: "present \<sigma> dst" using a1 by (rule acquire_present)
  let ?f1 = "(owned m)(ref_id dst := owned m (ref_id dst) + 1)"
  have s1: "\<sigma>1 = bump \<sigma> ?f1" using a1 acquire_bump [OF pd, of "owned m"] by simp
  have po: "present \<sigma> old" using ep Some by (rule entries_present_old)
  have pos: "1 \<le> ?f1 (ref_id old)" using owned_old_pos [OF Some] by simp
  have "\<sigma>' = bump \<sigma> (?f1(ref_id old := ?f1 (ref_id old) - 1))"
    using a2 release_bump [of \<sigma> old ?f1, OF wf po pos] unfolding s1 by simp
  moreover have "?f1(ref_id old := ?f1 (ref_id old) - 1) = owned m'"
  proof
    fix i
    show "(?f1(ref_id old := ?f1 (ref_id old) - 1)) i = owned m' i"
      using owned_update_old [OF Some, of "tagged (ref_tag src) dst" i] owned_old_pos [OF Some]
      unfolding m' by (auto simp: ref_id_tag split: if_splits)
  qed
  moreover have "present \<sigma> src"
    using ep Some present_tag(2) [of \<sigma> src]
    by (auto simp: entries_present_def dest!: map_of_SomeD)
  ultimately show ?thesis
    using ep pd by (simp add: m' entries_present_update mapped_after_update present_tag)
qed

lemma map_nodes_owned:
  assumes wf: "wf_store \<sigma>"
  shows "entries_present \<sigma> m \<Longrightarrow> map_nodes (bump \<sigma> (owned m)) m ps = Inr (\<sigma>', m') \<Longrightarrow>
    \<sigma>' = bump \<sigma> (owned m') \<and> entries_present \<sigma> m'"
proof (induction ps arbitrary: m)
  case Nil
  then show ?case by auto
next
  case (Cons p ps)
  obtain src dst where p: "p = (src, dst)" by (cases p)
  from Cons.prems(2) obtain \<sigma>1 m1 where
    one: "btor_map_node (bump \<sigma> (owned m)) m src dst = Inr (\<sigma>1, m1)" and
    rest: "map_nodes \<sigma>1 m1 ps = Inr (\<sigma>', m')"
    by (auto simp: p split: sum.splits)
  from map_node_owned [OF wf Cons.prems(1) one]
  have "\<sigma>1 = bump \<sigma> (owned m1)" and "entries_present \<sigma> m1" by simp_all
  with Cons.IH [of m1] rest show ?case by simp
qed

lemma delete_owned:
  assumes wf: "wf_store \<sigma>"
  shows "entries_present \<sigma> m \<Longrightarrow>
    btor_delete_node_map (bump \<sigma> (\<lambda>i. f i + owned m i)) m = Inr (bump \<sigma> f)"
proof (induction m arbitrary: f)
  case Nil
  then show ?case by simp
next
  case (Cons e m)
  obtain k d where e: "e = (k, d)" by (cases e)
  from Cons.prems have pk: "present \<sigma> k" and pd: "present \<sigma> d" and ep: "entries_present \<sigma> m"
    by (auto simp: e entries_present_def)
  let ?g = "\<lambda>i. f i + owned ((k, d) # m) i"
  let ?g1 = "?g(ref_id k := ?g (ref_id k) - 1)"
  let ?g2 = "?g1(ref_id d := ?g1 (ref_id d) - 1)"
  have r1: "release (bump \<sigma> ?g) k = Inr (bump \<sigma> ?g1)"
    by (rule release_bump [OF wf pk]) simp
  have r2: "release (bump \<sigma> ?g1) d = Inr (bump \<sigma> ?g2)"
    by (rule release_bump [OF wf pd]) simp
  have "?g2 = (\<lambda>i. f i + owned m i)" by (auto simp: fun_eq_iff)
  with r1 r2 Cons.IH [OF ep, of f] show ?case by (simp add: e)
qed

lemma map_nodes_append:
  "map_nodes \<sigma> m (ps @ qs) =
     (case map_nodes \<sigma> m ps of Inl e \<Rightarrow> Inl e | Inr (\<sigma>1, m1) \<Rightarrow> map_nodes \<sigma>1 m1 qs)"
  by (induction ps arbitrary: \<sigma> m) (auto split: sum.splits)

lemma owned_Nil: "owned [] = (\<lambda>i. 0)"
  by (simp add: fun_eq_iff)

lemma owned_absent: "entries_present \<sigma> m \<Longrightarrow> nodes \<sigma> i = None \<Longrightarrow> owned m i = 0"
  by (induction m) (auto simp: entries_present_def present_def)

text \<open>
  C2. Take a well-formed store and a new map, map any pairs and then \<open>src\<close> to \<open>dst\<close>, with
  every call returning. Then the look-up of \<open>src\<close> gives \<open>dst\<close>; the map holds one reference
  for each source and each destination of its pairs and nothing else has changed (the
  look-up is not given the store and adds no reference); and deleting the map gives back
  the store from before the first call, so that the reference count of every node is what
  it was.
\<close>

theorem node_map_round_trip:
  assumes "wf_store \<sigma>"
    and "map_nodes \<sigma> btor_new_node_map (ps @ [(src, dst)]) = Inr (\<sigma>', m)"
  shows "btor_mapped_node m src = Some dst \<and>
         (\<forall>i. refs_of \<sigma>' i = refs_of \<sigma> i + owned m i) \<and>
         btor_delete_node_map \<sigma>' m = Inr \<sigma>"
proof -
  from assms(2) obtain \<sigma>1 m1 where
    first: "map_nodes \<sigma> [] ps = Inr (\<sigma>1, m1)" and
    last: "btor_map_node \<sigma>1 m1 src dst = Inr (\<sigma>', m)"
    by (auto simp: map_nodes_append btor_new_node_map_def split: sum.splits)
  have e0: "entries_present \<sigma> []" by (simp add: entries_present_def)
  have "map_nodes (bump \<sigma> (owned [])) [] ps = Inr (\<sigma>1, m1)"
    using first by (simp add: owned_Nil bump_zero)
  from map_nodes_owned [OF assms(1) e0 this]
  have s1: "\<sigma>1 = bump \<sigma> (owned m1)" and e1: "entries_present \<sigma> m1" by simp_all
  from map_node_owned [OF assms(1) e1 last [unfolded s1]]
  have s': "\<sigma>' = bump \<sigma> (owned m)" and e': "entries_present \<sigma> m"
    and look: "btor_mapped_node m src = Some dst" by simp_all
  have "refs_of \<sigma>' i = refs_of \<sigma> i + owned m i" for i
    using owned_absent [OF e', of i] by (auto simp: s' refs_of_def bump_def split: option.splits)
  moreover have "btor_delete_node_map \<sigma>' m = Inr \<sigma>"
    using delete_owned [OF assms(1) e', of "\<lambda>i. 0"] by (simp add: s' bump_zero)
  ultimately show ?thesis using look by blast
qed

theorem node_map_round_trip_witness:
  "wf_store example_store \<and>
   (\<exists>\<sigma>' m.
      map_nodes example_store btor_new_node_map [(invert (plain_ref 1), plain_ref 2)] = Inr (\<sigma>', m) \<and>
      btor_mapped_node m (invert (plain_ref 1)) = Some (plain_ref 2) \<and>
      refs_of \<sigma>' 1 = 3 \<and> refs_of \<sigma>' 2 = 3 \<and>
      btor_delete_node_map \<sigma>' m = Inr example_store)"
proof -
  have wf: "wf_store example_store"
    by (auto simp: wf_store_def example_store_def split: if_splits)
  obtain \<sigma>' where run:
    "map_nodes example_store btor_new_node_map ([] @ [(invert (plain_ref 1), plain_ref 2)]) =
       Inr (\<sigma>', [(plain_ref 1, invert (plain_ref 2))])"
    by (simp add: btor_new_node_map_def btor_map_node_def acquire_def example_store_def
        plain_ref_def invert_def tagged_def tag_normalized_def zero_ref_def)
  have r: "refs_of example_store 1 = 2" "refs_of example_store 2 = 2"
    by (simp_all add: refs_of_def example_store_def)
  from node_map_round_trip [OF wf run] r
  have "btor_mapped_node [(plain_ref 1, invert (plain_ref 2))] (invert (plain_ref 1)) = Some (plain_ref 2) \<and>
      refs_of \<sigma>' 1 = 3 \<and> refs_of \<sigma>' 2 = 3 \<and>
      btor_delete_node_map \<sigma>' [(plain_ref 1, invert (plain_ref 2))] = Inr example_store"
    by (simp add: plain_ref_def invert_def tagged_def)
  with wf run show ?thesis by auto
qed

section \<open>Tags\<close>

lemma mapped_node_tagged:
  "btor_mapped_node m a = Some b \<Longrightarrow> btor_mapped_node m (tagged t a) = Some (tagged t b)"
  by (auto simp: btor_mapped_node_def tagged_twice tag_simps split: option.splits)

lemma mapped_node_normalized_None:
  "(btor_mapped_node m (tag_normalized r) = None) = (btor_mapped_node m r = None)"
  by (simp add: btor_mapped_node_def tag_simps split: option.splits)

lemma mapped_node_normalized_Some:
  "(\<exists>y. btor_mapped_node m (tag_normalized r) = Some y) = (\<exists>y. btor_mapped_node m r = Some y)"
  using mapped_node_normalized_None [of m r] by auto

lemma subst_loop_mapped_root:
  "btor_mapped_node (cache st) r \<noteq> None \<Longrightarrow>
   subst_loop (Suc fuel) mapper rebuild st [(r, v)] = (st, Returned ())"
  by (simp add: Let_def mapped_node_normalized_Some)

text \<open>
  C3. In a map where the look-up of \<open>a\<close> gives \<open>b\<close>, for every tag \<open>t\<close> the look-up of \<open>a\<close>
  tagged with \<open>t\<close> gives \<open>b\<close> tagged with \<open>t\<close>, from the one entry stored under the
  tag-normalized \<open>a\<close>. Substituting \<open>a\<close> tagged with \<open>t\<close> returns \<open>b\<close> tagged with \<open>t\<close>, newly
  acquired; in particular substituting the inverted \<open>a\<close> returns the inverted \<open>b\<close>.
\<close>

theorem tag_propagation:
  assumes "btor_mapped_node m a = Some b"
  shows "btor_mapped_node m (tagged t a) = Some (tagged t b) \<and>
     map_of m (tag_normalized (tagged t a)) = map_of m (tag_normalized a) \<and>
     (acquire \<sigma> (tagged t b) = Inr \<sigma>' \<longrightarrow>
        btor_non_recursive_substitute_node (Suc fuel) \<sigma> m rebuild (tagged t a) =
          (\<lparr>store = \<sigma>', cache = m, mapper_state = (), calls = []\<rparr>, Returned (tagged t b))) \<and>
     (acquire \<sigma> (invert b) = Inr \<sigma>' \<longrightarrow>
        btor_non_recursive_substitute_node (Suc fuel) \<sigma> m rebuild (invert a) =
          (\<lparr>store = \<sigma>', cache = m, mapper_state = (), calls = []\<rparr>, Returned (invert b)))"
proof -
  have look: "btor_mapped_node m (tagged u a) = Some (tagged u b)" for u
    using assms by (rule mapped_node_tagged)
  have subst: "btor_non_recursive_substitute_node (Suc fuel) \<sigma> m rebuild (tagged u a) =
      (\<lparr>store = \<sigma>', cache = m, mapper_state = (), calls = []\<rparr>, Returned (tagged u b))"
    if "acquire \<sigma> (tagged u b) = Inr \<sigma>'" for u
    using that look [of u]
    by (simp add: btor_non_recursive_substitute_node_def
        btor_non_recursive_extended_substitute_node_def subst_loop_mapped_root
        del: subst_loop.simps)
  from look [of t] subst [of t] subst [of 1] show ?thesis
    by (simp add: invert_def tag_simps)
qed

theorem tag_propagation_witness:
  "btor_mapped_node [(plain_ref 1, plain_ref 2)] (plain_ref 1) = Some (plain_ref 2) \<and>
   btor_mapped_node [(plain_ref 1, plain_ref 2)] (tagged 3 (plain_ref 1)) = Some (tagged 3 (plain_ref 2)) \<and>
   is_inverted (invert (plain_ref 1)) \<and> is_inverted (invert (plain_ref 2)) \<and>
   snd (btor_non_recursive_substitute_node 1 example_store [(plain_ref 1, plain_ref 2)] no_rebuild
          (invert (plain_ref 1))) = Returned (invert (plain_ref 2))"
proof -
  let ?m = "[(plain_ref 1, plain_ref 2)]"
  have a: "btor_mapped_node ?m (plain_ref 1) = Some (plain_ref 2)"
    by (simp add: btor_mapped_node_def plain_ref_def tag_normalized_def tagged_def)
  obtain \<sigma>' where acq: "acquire example_store (invert (plain_ref 2)) = Inr \<sigma>'"
    by (simp add: acquire_def example_store_def plain_ref_def invert_def tagged_def)
  have inv: "is_inverted (invert (plain_ref 1))" "is_inverted (invert (plain_ref 2))"
    by (simp_all add: is_inverted_def invert_def tagged_def plain_ref_def)
  from tag_propagation [OF a, of 3 example_store \<sigma>' 0 no_rebuild] a acq inv
  show ?thesis by simp
qed

section \<open>The mapper\<close>

lemma subst_loop_calls:
  "list_all (\<lambda>n. ref_tag n = 0 \<and> \<not> is_inverted n) (calls st) \<Longrightarrow>
   list_all (\<lambda>n. ref_tag n = 0 \<and> \<not> is_inverted n) (calls (fst (subst_loop fuel mapper rebuild st stack)))"
proof (induction fuel mapper rebuild st stack rule: subst_loop.induct)
  case (1 fuel mapper rebuild st)
  then show ?case by simp
next
  case (2 mapper rebuild st f stack)
  then show ?case by simp
next
  case (3 fuel mapper rebuild st r v stack)
  show ?case
  proof (cases "btor_mapped_node (cache st) (tag_normalized r) \<noteq> None")
    case True
    with 3 show ?thesis by simp
  next
    case unmapped: False
    show ?thesis
    proof (cases v)
      case Pre
      obtain res \<sigma>1 s1 where call: "mapper (store st) (mapper_state st) (tag_normalized r) = (res, \<sigma>1, s1)"
        by (cases "mapper (store st) (mapper_state st) (tag_normalized r)")
      let ?st1 = "st\<lparr>store := \<sigma>1, mapper_state := s1, calls := calls st @ [tag_normalized r]\<rparr>"
      have log: "list_all (\<lambda>n. ref_tag n = 0 \<and> \<not> is_inverted n) (calls ?st1)"
        using "3.prems" by (simp add: tag_simps)
      show ?thesis
      proof (cases res)
        case None
        with 3 unmapped Pre call log show ?thesis
          by (auto simp: Let_def split: option.splits)
      next
        case (Some new)
        with 3 unmapped Pre call log show ?thesis
          by (auto simp: Let_def split: sum.splits)
      qed
    next
      case Post
      with 3 unmapped show ?thesis
        by (auto simp: Let_def split: option.splits sum.splits)
    qed
  qed
qed

text \<open>
  C4. In every run of the extended substitution, finished, failed or out of fuel, every
  argument the mapper was called with is tag-normalized, so not inverted. When the mapper
  maps the tag-normalized root, the run returns the mapper's result with the tag of the
  caller's reference put on it.
\<close>

theorem mapper_sees_normalized_nodes:
  "list_all (\<lambda>n. ref_tag n = 0 \<and> \<not> is_inverted n)
     (calls (fst (btor_non_recursive_extended_substitute_node fuel \<sigma> m s mapper rebuild root))) \<and>
   (btor_mapped_node m root = None \<and>
    mapper \<sigma> s (tag_normalized root) = (Some new, \<sigma>1, s1) \<and>
    cache_result \<sigma>1 m (tag_normalized root) new = Inr (\<sigma>2, m2) \<and>
    acquire \<sigma>2 (tagged (ref_tag root) new) = Inr \<sigma>3 \<longrightarrow>
      btor_non_recursive_extended_substitute_node (Suc fuel) \<sigma> m s mapper rebuild root =
        (\<lparr>store = \<sigma>3, cache = m2, mapper_state = s1, calls = [tag_normalized root]\<rparr>,
         Returned (tagged (ref_tag root) new)))"
proof -
  let ?st0 = "\<lparr>store = \<sigma>, cache = m, mapper_state = s, calls = []\<rparr>"
  have "list_all (\<lambda>n. ref_tag n = 0 \<and> \<not> is_inverted n) (calls (fst (subst_loop fuel mapper rebuild ?st0 [(root, Pre)])))"
    by (rule subst_loop_calls) simp
  then have log: "list_all (\<lambda>n. ref_tag n = 0 \<and> \<not> is_inverted n)
     (calls (fst (btor_non_recursive_extended_substitute_node fuel \<sigma> m s mapper rebuild root)))"
    by (auto simp: btor_non_recursive_extended_substitute_node_def
        split: prod.splits outcome.splits option.splits sum.splits)
  have res: "btor_non_recursive_extended_substitute_node (Suc fuel) \<sigma> m s mapper rebuild root =
        (\<lparr>store = \<sigma>3, cache = m2, mapper_state = s1, calls = [tag_normalized root]\<rparr>,
         Returned (tagged (ref_tag root) new))"
    if un: "btor_mapped_node m root = None"
      and call: "mapper \<sigma> s (tag_normalized root) = (Some new, \<sigma>1, s1)"
      and cached: "cache_result \<sigma>1 m (tag_normalized root) new = Inr (\<sigma>2, m2)"
      and acq: "acquire \<sigma>2 (tagged (ref_tag root) new) = Inr \<sigma>3"
  proof -
    from cached have "m2 = AList.update (tag_normalized root) new m"
      by (auto simp: cache_result_def btor_map_node_def tag_simps
          split: sum.splits if_splits option.splits)
    then have look: "btor_mapped_node m2 root = Some (tagged (ref_tag root) new)"
      by (simp add: btor_mapped_node_def update_conv')
    have "subst_loop (Suc fuel) mapper rebuild ?st0 [(root, Pre)] =
        (\<lparr>store = \<sigma>2, cache = m2, mapper_state = s1, calls = [tag_normalized root]\<rparr>, Returned ())"
      using un call cached by (simp add: Let_def mapped_node_normalized_Some)
    with look acq show ?thesis
      by (simp add: btor_non_recursive_extended_substitute_node_def)
  qed
  from log res show ?thesis by blast
qed

theorem mapper_sees_normalized_nodes_witness:
  "btor_mapped_node [] (invert (plain_ref 1)) = None \<and>
   fst (example_mapper example_store 0 (plain_ref 1)) = Some (plain_ref 2) \<and>
   snd (btor_non_recursive_extended_substitute_node 1 example_store [] 0 example_mapper no_rebuild
          (invert (plain_ref 1))) = Returned (invert (plain_ref 2)) \<and>
   calls (fst (btor_non_recursive_extended_substitute_node 1 example_store [] 0 example_mapper
          no_rebuild (invert (plain_ref 1)))) = [plain_ref 1]"
proof -
  note defs = example_mapper_def acquire_def example_store_def plain_ref_def invert_def
    tagged_def tag_normalized_def cache_result_def btor_map_node_def release_def zero_ref_def
  let ?root = "invert (plain_ref 1)"
  let ?call = "example_mapper example_store 0 (tag_normalized ?root)"
  let ?\<sigma>1 = "fst (snd ?call)"
  let ?cached = "cache_result ?\<sigma>1 [] (tag_normalized ?root) (plain_ref 2)"
  let ?\<sigma>2 = "fst (projr ?cached)"
  let ?m2 = "snd (projr ?cached)"
  let ?\<sigma>3 = "projr (acquire ?\<sigma>2 (tagged (ref_tag ?root) (plain_ref 2)))"
  have un: "btor_mapped_node [] ?root = None"
    by (simp add: btor_mapped_node_def)
  have call: "?call = (Some (plain_ref 2), ?\<sigma>1, 1)"
    by (simp add: defs)
  have cached: "?cached = Inr (?\<sigma>2, ?m2)"
    by (simp add: defs)
  have acq: "acquire ?\<sigma>2 (tagged (ref_tag ?root) (plain_ref 2)) = Inr ?\<sigma>3"
    by (simp add: defs)
  have n: "tag_normalized ?root = plain_ref 1" "tagged (ref_tag ?root) (plain_ref 2) = invert (plain_ref 2)"
    by (simp_all add: invert_def tagged_def tag_normalized_def plain_ref_def)
  from mapper_sees_normalized_nodes [of 0 example_store "[]" 0 example_mapper no_rebuild ?root
      "plain_ref 2" ?\<sigma>1 1 ?\<sigma>2 ?m2 ?\<sigma>3] un call cached acq
  have run: "btor_non_recursive_extended_substitute_node 1 example_store [] 0 example_mapper no_rebuild ?root =
        (\<lparr>store = ?\<sigma>3, cache = ?m2, mapper_state = 1, calls = [tag_normalized ?root]\<rparr>,
         Returned (tagged (ref_tag ?root) (plain_ref 2)))"
    by simp
  have res: "snd (btor_non_recursive_extended_substitute_node 1 example_store [] 0 example_mapper
      no_rebuild ?root) = Returned (invert (plain_ref 2))"
    unfolding run n by simp
  have log: "calls (fst (btor_non_recursive_extended_substitute_node 1 example_store [] 0
      example_mapper no_rebuild ?root)) = [plain_ref 1]"
    unfolding run n by simp
  have "fst (example_mapper example_store 0 (plain_ref 1)) = Some (plain_ref 2)"
    by (simp add: defs)
  with un res log show ?thesis by blast
qed

end
